theory Spec2Isabelle
  imports Complex_Main
begin

section \<open>perfkitbenchmarker/timed\_interval.py: the data model\<close>

text \<open>
  A timestamp is what \<^verbatim>\<open>time.time()\<close> returns, a Python float. The model leaves the
  type of timestamps open (the type variable \<open>'t\<close>): the code only stores timestamps,
  subtracts two of them and hands them on, so every theorem below holds for any type with
  a subtraction, and the concrete runs use \<open>real\<close>.

  The class \<^verbatim>\<open>TimedInterval\<close> has three private fields, \<^verbatim>\<open>_name\<close>, \<^verbatim>\<open>_start_time\<close> and
  \<^verbatim>\<open>_stop_time\<close>, and three read-only properties \<^verbatim>\<open>name\<close>, \<^verbatim>\<open>start_time\<close> and
  \<^verbatim>\<open>stop_time\<close> that return them (lines 43 to 53). The record has one field per private
  field, and its selectors are the properties. Python's \<^verbatim>\<open>None\<close> is \<open>None\<close>.
\<close>

record 't TimedInterval =
  name :: string
  start_time :: "'t option"
  stop_time :: "'t option"

text \<open>
  Modelled from the spec: \<^verbatim>\<open>sample.Sample\<close> is imported from the module
  \<^verbatim>\<open>perfkitbenchmarker.sample\<close>, which is not among the sources. The spec describes a
  measurement record as a triple of a label (string), a value (number) and a unit (string);
  the code builds each record from these three arguments, in this order.
\<close>

datatype 't Sample = Sample string 't string

text \<open>
  The only error the code of this file can raise by itself: line 79 subtracts
  \<^verbatim>\<open>self._start_time\<close> from \<^verbatim>\<open>self._stop_time\<close>, and a float minus \<^verbatim>\<open>None\<close> is a
  \<^verbatim>\<open>TypeError\<close> in Python.
\<close>

datatype error = TypeError

section \<open>The operations\<close>

text \<open>\<^verbatim>\<open>__init__\<close> (lines 33 to 41).\<close>

definition TimedInterval_init :: "string \<Rightarrow> 't TimedInterval" where
  "TimedInterval_init nm = \<lparr>name = nm, start_time = None, stop_time = None\<rparr>"

text \<open>
  \<^verbatim>\<open>GenerateSamples\<close> (lines 62 to 87). The method is modelled with explicit state
  passing: it returns the list of samples (or the error) together with the object as the
  call leaves it.
\<close>

definition GenerateSamples ::
  "bool \<Rightarrow> ('t::minus) TimedInterval \<Rightarrow> (error + 't Sample list) \<times> 't TimedInterval" where
  "GenerateSamples include_timestamps self =
     (case stop_time self of
        None \<Rightarrow> (Inr [], self)
      | Some stop \<Rightarrow>
          (case start_time self of
             None \<Rightarrow> (Inl TypeError, self)
           | Some start \<Rightarrow>
               (let elapsed_time = stop - start;
                    samples = [Sample (name self @ '' Runtime'') elapsed_time ''seconds'']
                in if include_timestamps
                   then (Inr (samples @
                           [Sample (name self @ '' Start Timestamp'') start ''seconds'',
                            Sample (name self @ '' Stop Timestamp'') stop ''seconds'']), self)
                   else (Inr samples, self))))"

text \<open>
  \<^verbatim>\<open>Measure\<close> (lines 55 to 60) is a generator turned into a context manager by
  \<^verbatim>\<open>contextlib.contextmanager\<close>. Entering the \<^verbatim>\<open>with\<close> statement runs the generator up
  to its \<^verbatim>\<open>yield\<close> (line 58); leaving the block normally resumes it after the \<^verbatim>\<open>yield\<close>
  (line 60); leaving the block with an exception throws the exception into the generator
  at the \<^verbatim>\<open>yield\<close>, where no \<^verbatim>\<open>try\<close> encloses it, so the generator ends there, line 60
  is not run and the same exception leaves the \<^verbatim>\<open>with\<close> statement.

  The first argument of the two steps is the value that \<^verbatim>\<open>time.time()\<close> returns there.
\<close>

definition Measure_enter :: "'t \<Rightarrow> 't TimedInterval \<Rightarrow> 't TimedInterval" where
  "Measure_enter t self = self\<lparr>start_time := Some t\<rparr>"

definition Measure_exit :: "'t \<Rightarrow> 't TimedInterval \<Rightarrow> 't TimedInterval" where
  "Measure_exit t self = self\<lparr>stop_time := Some t\<rparr>"

definition Measure_throw :: "'e \<Rightarrow> 't TimedInterval \<Rightarrow> 't TimedInterval" where
  "Measure_throw e self = self"

section \<open>The \<^verbatim>\<open>with\<close> statement around a block\<close>

text \<open>
  What the caller writes is \<^verbatim>\<open>with interval.Measure(): block\<close>. The block is opaque
  code: it runs in a state that holds the host clock (what \<^verbatim>\<open>time.time()\<close> would return
  now) and the interval object, it may change both (time passes; the block may use the
  interval itself), and it either completes or raises.
\<close>

datatype 'e outcome = Completed | Raised 'e

record 't world =
  now :: 't
  timer :: "'t TimedInterval"

definition Measure ::
  "('t world \<Rightarrow> 'e outcome \<times> 't world) \<Rightarrow> 't world \<Rightarrow> 'e outcome \<times> 't world" where
  "Measure block s =
     (let s1 = s\<lparr>timer := Measure_enter (now s) (timer s)\<rparr>;
          (r, s2) = block s1
      in case r of
           Completed \<Rightarrow> (Completed, s2\<lparr>timer := Measure_exit (now s2) (timer s2)\<rparr>)
         | Raised e \<Rightarrow> (Raised e, s2\<lparr>timer := Measure_throw e (timer s2)\<rparr>))"

text \<open>
  Two blocks for the concrete runs below. Both leave the interval alone and last until the
  clock reads \<open>t\<close>; the first completes, the second raises the error \<open>e\<close>.
\<close>

definition completing_block :: "'t \<Rightarrow> 't world \<Rightarrow> 'e outcome \<times> 't world" where
  "completing_block t s = (Completed, s\<lparr>now := t\<rparr>)"

definition raising_block :: "'t \<Rightarrow> 'e \<Rightarrow> 't world \<Rightarrow> 'e outcome \<times> 't world" where
  "raising_block t e s = (Raised e, s\<lparr>now := t\<rparr>)"

section \<open>Histories of one interval\<close>

text \<open>
  A history lists what happens to one interval object, in order: a \<^verbatim>\<open>with\<close> statement
  is entered (with the clock reading taken there), a block is left normally (with the
  reading taken there), a block is left by an exception, or \<^verbatim>\<open>GenerateSamples\<close> is called.
\<close>

datatype ('t, 'e) event = Enter 't | Exit_normal 't | Exit_raise 'e | Generate bool

fun apply_event :: "('t::minus, 'e) event \<Rightarrow> 't TimedInterval \<Rightarrow> 't TimedInterval" where
  "apply_event (Enter t) self = Measure_enter t self"
| "apply_event (Exit_normal t) self = Measure_exit t self"
| "apply_event (Exit_raise e) self = Measure_throw e self"
| "apply_event (Generate b) self = snd (GenerateSamples b self)"

fun run :: "('t::minus, 'e) event list \<Rightarrow> 't TimedInterval \<Rightarrow> 't TimedInterval" where
  "run [] self = self"
| "run (ev # evs) self = run evs (apply_event ev self)"

text \<open>
  A block can only be left after it was entered: in a well-formed history every exit
  closes a scope that is open. The first argument of \<open>balanced\<close> counts the open scopes.
\<close>

fun balanced :: "nat \<Rightarrow> ('t, 'e) event list \<Rightarrow> bool" where
  "balanced k [] = True"
| "balanced k (Enter t # evs) = balanced (Suc k) evs"
| "balanced 0 (Exit_normal t # evs) = False"
| "balanced (Suc k) (Exit_normal t # evs) = balanced k evs"
| "balanced 0 (Exit_raise e # evs) = False"
| "balanced (Suc k) (Exit_raise e # evs) = balanced k evs"
| "balanced k (Generate b # evs) = balanced k evs"

definition well_formed :: "('t, 'e) event list \<Rightarrow> bool" where
  "well_formed evs = balanced 0 evs"

text \<open>How many scopes of a history were left normally, and the clock readings it took.\<close>

fun completed :: "('t, 'e) event list \<Rightarrow> nat" where
  "completed [] = 0"
| "completed (Exit_normal t # evs) = Suc (completed evs)"
| "completed (ev # evs) = completed evs"

fun readings :: "('t, 'e) event list \<Rightarrow> 't list" where
  "readings [] = []"
| "readings (Enter t # evs) = t # readings evs"
| "readings (Exit_normal t # evs) = t # readings evs"
| "readings (ev # evs) = readings evs"

text \<open>
  The state machine as the specification words it: states Unmeasured, Measuring and
  Measured; Unmeasured to Measuring on entering the scope, Measuring to Measured on normal
  exit, Measured to Measuring on re-entering the scope. Reading the samples changes no
  state. The specification lists no other transition, so \<open>phase_step\<close> has none.
\<close>

datatype phase = Unmeasured | Measuring | Measured

fun phase_step :: "phase \<Rightarrow> ('t, 'e) event \<Rightarrow> phase option" where
  "phase_step Unmeasured (Enter t) = Some Measuring"
| "phase_step Measuring (Exit_normal t) = Some Measured"
| "phase_step Measured (Enter t) = Some Measuring"
| "phase_step p (Generate b) = Some p"
| "phase_step p ev = None"

fun phase_run :: "phase \<Rightarrow> ('t, 'e) event list \<Rightarrow> phase option" where
  "phase_run p [] = Some p"
| "phase_run p (ev # evs) =
     (case phase_step p ev of None \<Rightarrow> None | Some q \<Rightarrow> phase_run q evs)"

section \<open>Facts about histories\<close>

lemma GenerateSamples_state [simp]: "snd (GenerateSamples b self) = self"
  by (simp add: GenerateSamples_def Let_def split: option.splits)

lemma GenerateSamples_unset [simp]:
  "stop_time self = None \<Longrightarrow> fst (GenerateSamples b self) = Inr []"
  by (simp add: GenerateSamples_def)

lemma GenerateSamples_set:
  "stop_time self = Some y \<Longrightarrow> start_time self = Some x \<Longrightarrow>
   fst (GenerateSamples b self) =
     Inr (Sample (name self @ '' Runtime'') (y - x) ''seconds'' #
          (if b then [Sample (name self @ '' Start Timestamp'') x ''seconds'',
                      Sample (name self @ '' Stop Timestamp'') y ''seconds'']
           else []))"
  by (simp add: GenerateSamples_def)

lemma GenerateSamples_empty_iff:
  "fst (GenerateSamples b self) = Inr [] \<longleftrightarrow> stop_time self = None"
  by (simp add: GenerateSamples_def Let_def split: option.splits)

lemma run_append: "run (xs @ ys) self = run ys (run xs self)"
  by (induction xs arbitrary: self) simp_all

lemma apply_event_name [simp]: "name (apply_event ev self) = name self"
  by (cases ev) (simp_all add: Measure_enter_def Measure_exit_def Measure_throw_def)

lemma run_name [simp]: "name (run evs self) = name self"
  by (induction evs arbitrary: self) simp_all

lemma run_Generate [simp]: "run (map Generate bs) self = self"
  by (induction bs) simp_all

lemma stop_time_run:
  "stop_time (run evs self) = None \<longleftrightarrow> stop_time self = None \<and> completed evs = 0"
proof (induction evs arbitrary: self)
  case Nil
  show ?case by simp
next
  case (Cons ev evs)
  show ?case
    by (cases ev) (simp_all add: Cons.IH Measure_enter_def Measure_exit_def Measure_throw_def)
qed

lemma start_time_kept:
  "start_time self \<noteq> None \<Longrightarrow> start_time (run evs self) \<noteq> None"
proof (induction evs arbitrary: self)
  case Nil
  then show ?case by simp
next
  case (Cons ev evs)
  have "start_time (apply_event ev self) \<noteq> None"
    using Cons.prems
    by (cases ev) (simp_all add: Measure_enter_def Measure_exit_def Measure_throw_def)
  then show ?case using Cons.IH by simp
qed

lemma start_time_entered:
  "Enter t \<in> set evs \<Longrightarrow> start_time (run evs self) \<noteq> None"
proof (induction evs arbitrary: self)
  case Nil
  then show ?case by simp
next
  case (Cons ev evs)
  show ?case
  proof (cases "ev = Enter t")
    case True
    then show ?thesis
      using start_time_kept [of "Measure_enter t self" evs] by (simp add: Measure_enter_def)
  next
    case False
    then show ?thesis using Cons by simp
  qed
qed

lemma balanced_completed:
  "balanced k evs \<Longrightarrow> 0 < completed evs \<Longrightarrow> 0 < k \<or> (\<exists>t. Enter t \<in> set evs)"
proof (induction k evs rule: balanced.induct)
  case (4 k t evs)
  then show ?case by simp
qed auto

lemma completed_append [simp]: "completed (xs @ ys) = completed xs + completed ys"
  by (induction xs rule: completed.induct) simp_all

lemma readings_append [simp]: "readings (xs @ ys) = readings xs @ readings ys"
  by (induction xs rule: readings.induct) simp_all

lemma well_formed_started:
  assumes "well_formed evs" and "0 < completed evs"
  shows "start_time (run evs self) \<noteq> None"
  using balanced_completed [of 0 evs] assms start_time_entered
  unfolding well_formed_def by blast

lemma start_time_reading:
  "start_time (run evs self) = Some a \<Longrightarrow> start_time self = Some a \<or> a \<in> set (readings evs)"
proof (induction evs arbitrary: self)
  case Nil
  then show ?case by simp
next
  case (Cons ev evs)
  from Cons.prems have "start_time (apply_event ev self) = Some a \<or> a \<in> set (readings evs)"
    using Cons.IH by simp
  then show ?case
    by (cases ev) (auto simp: Measure_enter_def Measure_exit_def Measure_throw_def)
qed

text \<open>What each phase of the specification's machine says about the two timestamps.\<close>

lemma phase_run_timestamps:
  "phase_run p evs = Some q \<Longrightarrow>
   (p = Unmeasured \<longrightarrow> k = 0) \<Longrightarrow>
   (p = Measured \<longrightarrow> 0 < k) \<Longrightarrow>
   (q = Unmeasured \<longrightarrow> k + completed evs = 0) \<and> (q = Measured \<longrightarrow> 0 < k + completed evs)"
proof (induction evs arbitrary: p k)
  case Nil
  then show ?case by auto
next
  case (Cons ev evs)
  from Cons.prems(1) obtain r where r: "phase_step p ev = Some r" "phase_run r evs = Some q"
    by (auto split: option.splits)
  show ?case
  proof (cases ev)
    case (Enter t)
    with r have "r = Measuring" by (cases p) auto
    then show ?thesis using Cons.IH [of r k] r Enter by auto
  next
    case (Exit_normal t)
    with r have "r = Measured" by (cases p) auto
    then show ?thesis using Cons.IH [of r "Suc k"] r Exit_normal by auto
  next
    case (Exit_raise e)
    with r show ?thesis by (cases p) auto
  next
    case (Generate b)
    with r have "r = p" by (cases p) auto
    then show ?thesis using Cons.IH [of r k] Cons.prems r Generate by auto
  qed
qed

section \<open>A fresh interval\<close>

text \<open>
  C8: for every name, a freshly constructed TimedInterval has unset start\_time and unset
  stop\_time, its name accessor returns the name given at construction, and
  GenerateSamples returns an empty sequence whatever the include\_timestamps flag is.
\<close>

theorem fresh_interval:
  "start_time (TimedInterval_init nm :: ('t::minus) TimedInterval) = None
   \<and> stop_time (TimedInterval_init nm :: 't TimedInterval) = None
   \<and> name (TimedInterval_init nm :: 't TimedInterval) = nm
   \<and> fst (GenerateSamples b (TimedInterval_init nm :: 't TimedInterval)) = Inr []"
  by (simp add: TimedInterval_init_def GenerateSamples_def)

section \<open>Reading the samples\<close>

text \<open>
  C9: for every state of a TimedInterval, GenerateSamples leaves the name, start\_time and
  stop\_time of the instance unchanged, and two consecutive calls with the same
  include\_timestamps flag return equal sequences.
\<close>

theorem GenerateSamples_reads_only:
  "snd (GenerateSamples b self) = self
   \<and> name (snd (GenerateSamples b self)) = name self
   \<and> start_time (snd (GenerateSamples b self)) = start_time self
   \<and> stop_time (snd (GenerateSamples b self)) = stop_time self
   \<and> fst (GenerateSamples b (snd (GenerateSamples b self))) = fst (GenerateSamples b self)"
  by (simp add: GenerateSamples_def Let_def split: option.splits)

text \<open>
  C7: in every state in which stop\_time is unset, GenerateSamples returns an empty
  sequence for either value of include\_timestamps; and in every state that a well-formed
  history of Measure entries, exits and reads produces from a fresh interval,
  GenerateSamples returns a sequence and raises no error, for either flag value.
\<close>

theorem GenerateSamples_never_fails:
  assumes "well_formed evs"
  shows "(stop_time self = None \<longrightarrow> GenerateSamples b self = (Inr [], self))
         \<and> (\<exists>xs. fst (GenerateSamples b' (run evs (TimedInterval_init nm))) = Inr xs)"
proof -
  let ?S = "run evs (TimedInterval_init nm)"
  have first: "stop_time self = None \<longrightarrow> GenerateSamples b self = (Inr [], self)"
    by (simp add: GenerateSamples_def)
  have second: "\<exists>xs. fst (GenerateSamples b' ?S) = Inr xs"
  proof (cases "stop_time ?S")
    case None
    then show ?thesis by simp
  next
    case (Some y)
    then have "0 < completed evs"
      using stop_time_run [of evs "TimedInterval_init nm"]
      by (auto simp: TimedInterval_init_def)
    then have "start_time ?S \<noteq> None"
      using assms by (rule well_formed_started [rotated])
    then obtain x where "start_time ?S = Some x" by auto
    with Some show ?thesis by (simp add: GenerateSamples_set)
  qed
  from first second show ?thesis by simp
qed

theorem GenerateSamples_never_fails_witness:
  "well_formed [Enter (100::real), Exit_raise ''boom'', Enter 101, Exit_normal 102.5]
   \<and> stop_time (TimedInterval_init ''Disk'' :: real TimedInterval) = None
   \<and> GenerateSamples True (TimedInterval_init ''Disk'' :: real TimedInterval)
       = (Inr [], TimedInterval_init ''Disk'')
   \<and> (\<exists>xs. fst (GenerateSamples False
         (run [Enter (100::real), Exit_raise ''boom'', Enter 101, Exit_normal 102.5]
            (TimedInterval_init ''Disk''))) = Inr xs)"
proof -
  have wf: "well_formed [Enter (100::real), Exit_raise ''boom'', Enter 101, Exit_normal 102.5]"
    by (simp add: well_formed_def)
  have unset: "stop_time (TimedInterval_init ''Disk'' :: real TimedInterval) = None"
    by (simp add: TimedInterval_init_def)
  from wf unset GenerateSamples_never_fails
         [OF wf, of "TimedInterval_init ''Disk'' :: real TimedInterval" True False "''Disk''"]
  show ?thesis by simp
qed

section \<open>The invariant of the two timestamps\<close>

text \<open>
  C4: after every well-formed history of operations on a fresh interval, stop\_time is set
  if and only if a measured scope has been left normally at least once, and stop\_time is
  never set while start\_time is unset.
\<close>

theorem stop_time_invariant:
  assumes "well_formed evs"
  shows "(stop_time (run evs (TimedInterval_init nm)) \<noteq> None \<longleftrightarrow> 0 < completed evs)
         \<and> (start_time (run evs (TimedInterval_init nm)) = None
              \<longrightarrow> stop_time (run evs (TimedInterval_init nm)) = None)"
proof -
  let ?S = "run evs (TimedInterval_init nm)"
  have iff: "stop_time ?S \<noteq> None \<longleftrightarrow> 0 < completed evs"
    using stop_time_run [of evs "TimedInterval_init nm"]
    by (simp add: TimedInterval_init_def)
  have "start_time ?S \<noteq> None" if "stop_time ?S \<noteq> None"
    using that iff assms well_formed_started [of evs "TimedInterval_init nm"] by blast
  with iff show ?thesis by blast
qed

theorem stop_time_invariant_witness:
  "well_formed [Enter (100::real), Generate True, Exit_raise ''boom'', Enter 101,
                Exit_normal 102.5, Generate False]
   \<and> stop_time (run [Enter (100::real), Generate True, Exit_raise ''boom'', Enter 101,
                      Exit_normal 102.5, Generate False] (TimedInterval_init ''Disk'')) \<noteq> None
   \<and> 0 < completed [Enter (100::real), Generate True, Exit_raise ''boom'', Enter 101,
                     Exit_normal 102.5, Generate False]
   \<and> start_time (run [Enter (100::real), Generate True, Exit_raise ''boom'', Enter 101,
                       Exit_normal 102.5, Generate False] (TimedInterval_init ''Disk'')) \<noteq> None"
proof -
  have wf: "well_formed [Enter (100::real), Generate True, Exit_raise ''boom'', Enter 101,
                         Exit_normal 102.5, Generate False]"
    by (simp add: well_formed_def)
  have cmpl: "0 < completed [Enter (100::real), Generate True, Exit_raise ''boom'', Enter 101,
                             Exit_normal 102.5, Generate False]"
    by simp
  from wf cmpl stop_time_invariant [OF wf, of "''Disk''"]
  show ?thesis
    by (simp add: Measure_enter_def Measure_exit_def Measure_throw_def TimedInterval_init_def)
qed

section \<open>A scope that completes\<close>

text \<open>
  C5: after a well-formed history that ends with a normal exit from Measure,
  start\_time \<le> stop\_time provided the clock readings of the history never decrease,
  and GenerateSamples(False) returns exactly one record, with the label
  "<name> Runtime", the value stop\_time - start\_time and the unit "seconds".
\<close>

theorem runtime_sample_after_Measure:
  fixes evs :: "('t::{minus,linorder}, 'e) event list"
  assumes "well_formed (evs @ [Exit_normal y])"
    and "sorted (readings (evs @ [Exit_normal y]))"
  shows "\<exists>x. start_time (run (evs @ [Exit_normal y]) (TimedInterval_init nm)) = Some x
           \<and> stop_time (run (evs @ [Exit_normal y]) (TimedInterval_init nm)) = Some y
           \<and> x \<le> y
           \<and> fst (GenerateSamples False (run (evs @ [Exit_normal y]) (TimedInterval_init nm)))
               = Inr [Sample (nm @ '' Runtime'') (y - x) ''seconds'']"
proof -
  let ?S = "run (evs @ [Exit_normal y]) (TimedInterval_init nm)"
  have "start_time ?S \<noteq> None"
    using assms(1) by (rule well_formed_started) simp
  then obtain x where x: "start_time ?S = Some x" by auto
  have stop: "stop_time ?S = Some y"
    by (simp add: run_append Measure_exit_def)
  have nm: "name ?S = nm"
    by (simp add: TimedInterval_init_def)
  have "start_time (run evs (TimedInterval_init nm :: 't TimedInterval)) = Some x"
    using x by (simp add: run_append Measure_exit_def)
  then have "x \<in> set (readings evs)"
    using start_time_reading [of evs "TimedInterval_init nm" x]
    by (simp add: TimedInterval_init_def)
  then have "x \<le> y"
    using assms(2) by (simp add: sorted_append)
  with x stop nm GenerateSamples_set [OF stop x, of False] show ?thesis by simp
qed

theorem runtime_sample_after_Measure_witness:
  "well_formed ([Enter (100::real)] @ [Exit_normal 102.5 :: (real, string) event])
   \<and> sorted (readings ([Enter (100::real)] @ [Exit_normal 102.5 :: (real, string) event]))
   \<and> fst (GenerateSamples False
        (run ([Enter (100::real)] @ [Exit_normal 102.5 :: (real, string) event])
           (TimedInterval_init ''Disk'')))
       = Inr [Sample ''Disk Runtime'' 2.5 ''seconds'']"
proof -
  have wf: "well_formed ([Enter (100::real)] @ [Exit_normal 102.5 :: (real, string) event])"
    by (simp add: well_formed_def)
  have mono: "sorted (readings ([Enter (100::real)] @ [Exit_normal 102.5 :: (real, string) event]))"
    by simp
  from wf mono runtime_sample_after_Measure [OF wf mono, of "''Disk''"]
  show ?thesis
    by (auto simp: Measure_enter_def Measure_exit_def TimedInterval_init_def)
qed

text \<open>
  C6: after a well-formed history that ends with a normal exit from Measure,
  GenerateSamples(True) returns exactly three records, in this order: "<name> Runtime"
  with the elapsed time, "<name> Start Timestamp" with the value start\_time, and
  "<name> Stop Timestamp" with the value stop\_time, each with the unit "seconds".
\<close>

theorem timestamp_samples_after_Measure:
  assumes "well_formed (evs @ [Exit_normal y])"
  shows "\<exists>x. start_time (run (evs @ [Exit_normal y]) (TimedInterval_init nm)) = Some x
           \<and> stop_time (run (evs @ [Exit_normal y]) (TimedInterval_init nm)) = Some y
           \<and> fst (GenerateSamples True (run (evs @ [Exit_normal y]) (TimedInterval_init nm)))
               = Inr [Sample (nm @ '' Runtime'') (y - x) ''seconds'',
                      Sample (nm @ '' Start Timestamp'') x ''seconds'',
                      Sample (nm @ '' Stop Timestamp'') y ''seconds'']"
proof -
  let ?S = "run (evs @ [Exit_normal y]) (TimedInterval_init nm)"
  have "start_time ?S \<noteq> None"
    using assms by (rule well_formed_started) simp
  then obtain x where x: "start_time ?S = Some x" by auto
  have stop: "stop_time ?S = Some y"
    by (simp add: run_append Measure_exit_def)
  have nm: "name ?S = nm"
    by (simp add: TimedInterval_init_def)
  from x stop nm GenerateSamples_set [OF stop x, of True] show ?thesis by simp
qed

theorem timestamp_samples_after_Measure_witness:
  "well_formed ([Enter (100::real)] @ [Exit_normal 102.5 :: (real, string) event])
   \<and> fst (GenerateSamples True
        (run ([Enter (100::real)] @ [Exit_normal 102.5 :: (real, string) event])
           (TimedInterval_init ''Disk'')))
       = Inr [Sample ''Disk Runtime'' 2.5 ''seconds'',
              Sample ''Disk Start Timestamp'' 100 ''seconds'',
              Sample ''Disk Stop Timestamp'' 102.5 ''seconds'']"
proof -
  have wf: "well_formed ([Enter (100::real)] @ [Exit_normal 102.5 :: (real, string) event])"
    by (simp add: well_formed_def)
  from wf timestamp_samples_after_Measure [OF wf, of "''Disk''"]
  show ?thesis
    by (auto simp: Measure_enter_def Measure_exit_def TimedInterval_init_def)
qed

section \<open>A block that raises\<close>

text \<open>
  C1, as the specification states it, fails: a block that raises inside Measure on a fresh
  interval leaves stop\_time unset when its error reaches the caller. The block below
  raises at clock reading 102.5, after entry at 100.
\<close>

theorem raising_block_leaves_stop_time_unset:
  "Measure (raising_block 102.5 ''boom'')
      \<lparr>now = (100::real), timer = TimedInterval_init ''Disk''\<rparr>
   = (Raised ''boom'',
      \<lparr>now = 102.5, timer = \<lparr>name = ''Disk'', start_time = Some 100, stop_time = None\<rparr>\<rparr>)"
  by (simp add: Measure_def raising_block_def Measure_enter_def Measure_throw_def
      TimedInterval_init_def)

text \<open>
  C1, amended: for every TimedInterval and every wrapped block that raises an error inside
  Measure, the error propagates to the caller unchanged, and Measure writes nothing after
  the block: the interval, and so its stop\_time, is left exactly as it was when the block
  raised.
\<close>

theorem raising_block_propagates:
  assumes "block (s\<lparr>timer := Measure_enter (now s) (timer s)\<rparr>) = (Raised e, s')"
  shows "Measure block s = (Raised e, s')
         \<and> stop_time (timer (snd (Measure block s))) = stop_time (timer s')"
  using assms by (simp add: Measure_def Measure_throw_def)

theorem raising_block_propagates_witness:
  "raising_block 102.5 ''boom''
      (\<lparr>now = (100::real), timer = TimedInterval_init ''Disk''\<rparr>
         \<lparr>timer := Measure_enter 100 (TimedInterval_init ''Disk'')\<rparr>)
     = (Raised ''boom'', \<lparr>now = 102.5, timer = Measure_enter 100 (TimedInterval_init ''Disk'')\<rparr>)
   \<and> Measure (raising_block 102.5 ''boom'')
        \<lparr>now = (100::real), timer = TimedInterval_init ''Disk''\<rparr>
     = (Raised ''boom'', \<lparr>now = 102.5, timer = Measure_enter 100 (TimedInterval_init ''Disk'')\<rparr>)"
proof -
  let ?s = "\<lparr>now = (100::real), timer = TimedInterval_init ''Disk''\<rparr>"
  let ?s' = "\<lparr>now = (102.5::real), timer = Measure_enter 100 (TimedInterval_init ''Disk'')\<rparr>"
  have raises:
    "raising_block 102.5 ''boom'' (?s\<lparr>timer := Measure_enter (now ?s) (timer ?s)\<rparr>)
       = (Raised ''boom'', ?s')"
    by (simp add: raising_block_def)
  from raises
    raising_block_propagates
      [where block = "raising_block 102.5 ''boom''" and s = "?s" and e = "''boom''" and s' = "?s'"]
  show ?thesis by simp
qed

text \<open>
  C10: if the block wrapped by Measure raises (and does not itself touch the interval),
  start\_time is the clock reading of the new entry and stop\_time keeps the value it had
  before the call. So when an earlier measurement had set stop\_time, GenerateSamples
  afterwards returns non-empty records computed from the new start\_time and the old
  stop\_time, and the elapsed value is negative when the old stop\_time is earlier than
  the new entry.
\<close>

theorem raising_block_keeps_stale_stop_time:
  fixes s :: "('t::ordered_ab_group_add) world"
  assumes "block (s\<lparr>timer := Measure_enter (now s) (timer s)\<rparr>) = (Raised e, s')"
    and "timer s' = Measure_enter (now s) (timer s)"
  shows "fst (Measure block s) = Raised e
         \<and> start_time (timer (snd (Measure block s))) = Some (now s)
         \<and> stop_time (timer (snd (Measure block s))) = stop_time (timer s)
         \<and> (stop_time (timer s) = Some old \<longrightarrow>
              fst (GenerateSamples b (timer (snd (Measure block s))))
                = Inr (Sample (name (timer s) @ '' Runtime'') (old - now s) ''seconds'' #
                       (if b then [Sample (name (timer s) @ '' Start Timestamp'') (now s) ''seconds'',
                                   Sample (name (timer s) @ '' Stop Timestamp'') old ''seconds'']
                        else []))
              \<and> (old < now s \<longrightarrow> old - now s < 0))"
proof -
  have m: "Measure block s = (Raised e, s')"
    using assms(1) by (simp add: Measure_def Measure_throw_def)
  have t: "timer (snd (Measure block s)) = Measure_enter (now s) (timer s)"
    using m assms(2) by simp
  have start: "start_time (timer (snd (Measure block s))) = Some (now s)"
    by (simp add: t Measure_enter_def)
  have stop: "stop_time (timer (snd (Measure block s))) = stop_time (timer s)"
    by (simp add: t Measure_enter_def)
  have nm: "name (timer (snd (Measure block s))) = name (timer s)"
    by (simp add: t Measure_enter_def)
  have samples: "fst (GenerateSamples b (timer (snd (Measure block s))))
      = Inr (Sample (name (timer s) @ '' Runtime'') (old - now s) ''seconds'' #
             (if b then [Sample (name (timer s) @ '' Start Timestamp'') (now s) ''seconds'',
                         Sample (name (timer s) @ '' Stop Timestamp'') old ''seconds'']
              else []))"
    if "stop_time (timer s) = Some old"
    using GenerateSamples_set [of "timer (snd (Measure block s))" old "now s" b] that start stop nm
    by simp
  from m start stop samples show ?thesis by simp
qed

theorem raising_block_keeps_stale_stop_time_witness:
  "Measure (completing_block 102.5)
       \<lparr>now = (100::real), timer = TimedInterval_init ''Disk''\<rparr>
     = (Completed :: string outcome,
        \<lparr>now = 102.5, timer = \<lparr>name = ''Disk'', start_time = Some 100, stop_time = Some 102.5\<rparr>\<rparr>)
   \<and> Measure (raising_block 201 ''boom'')
       \<lparr>now = (200::real), timer = \<lparr>name = ''Disk'', start_time = Some 100, stop_time = Some 102.5\<rparr>\<rparr>
     = (Raised ''boom'',
        \<lparr>now = 201, timer = \<lparr>name = ''Disk'', start_time = Some 200, stop_time = Some 102.5\<rparr>\<rparr>)
   \<and> fst (GenerateSamples False \<lparr>name = ''Disk'', start_time = Some (200::real), stop_time = Some 102.5\<rparr>)
     = Inr [Sample ''Disk Runtime'' (- 97.5) ''seconds'']
   \<and> (- 97.5 :: real) < 0"
proof -
  let ?s = "\<lparr>now = (200::real), timer = \<lparr>name = ''Disk'', start_time = Some 100, stop_time = Some 102.5\<rparr>\<rparr>"
  let ?s' = "\<lparr>now = (201::real), timer = \<lparr>name = ''Disk'', start_time = Some 200, stop_time = Some 102.5\<rparr>\<rparr>"
  have first: "Measure (completing_block 102.5)
       \<lparr>now = (100::real), timer = TimedInterval_init ''Disk''\<rparr>
     = (Completed :: string outcome,
        \<lparr>now = 102.5, timer = \<lparr>name = ''Disk'', start_time = Some 100, stop_time = Some 102.5\<rparr>\<rparr>)"
    by (simp add: Measure_def completing_block_def Measure_enter_def Measure_exit_def
        TimedInterval_init_def)
  have raises: "raising_block 201 ''boom'' (?s\<lparr>timer := Measure_enter (now ?s) (timer ?s)\<rparr>)
                  = (Raised ''boom'', ?s')"
    by (simp add: raising_block_def Measure_enter_def)
  have untouched: "timer ?s' = Measure_enter (now ?s) (timer ?s)"
    by (simp add: Measure_enter_def)
  have m: "Measure (raising_block 201 ''boom'') ?s = (Raised ''boom'', ?s')"
    by (simp add: Measure_def raising_block_def Measure_enter_def Measure_throw_def)
  from raises untouched m
    raising_block_keeps_stale_stop_time
      [where block = "raising_block 201 ''boom''" and s = "?s" and e = "''boom''"
         and s' = "?s'" and old = "102.5" and b = False]
  have "fst (GenerateSamples False (timer ?s')) = Inr [Sample ''Disk Runtime'' (- 97.5) ''seconds'']
        \<and> (- 97.5 :: real) < 0"
    by simp
  with first m show ?thesis by simp
qed

section \<open>Entering the scope again\<close>

text \<open>
  C2, as the specification states it, fails: after a measurement that completed, entering
  Measure again puts the specification's machine in the state Measuring, and there
  GenerateSamples yields a record, not an empty sequence.
\<close>

theorem samples_in_Measuring_state:
  "phase_run Unmeasured [Enter (100::real), Exit_normal 102.5, Enter 200 :: (real, string) event]
     = Some Measuring
   \<and> fst (GenerateSamples False
        (run [Enter (100::real), Exit_normal 102.5, Enter 200 :: (real, string) event]
           (TimedInterval_init ''Disk'')))
     = Inr [Sample ''Disk Runtime'' (- 97.5) ''seconds'']"
  by (simp add: GenerateSamples_def Measure_enter_def Measure_exit_def TimedInterval_init_def)

text \<open>
  C2, amended: after every well-formed history of Measure entries and exits on a fresh
  interval, GenerateSamples yields an empty sequence exactly when no scope has been left
  normally so far, and a non-empty sequence exactly when some scope has. So it is empty in
  the state Unmeasured and non-empty in the state Measured, and an empty result is
  possible only in Unmeasured or Measuring; in Measuring the result is non-empty whenever
  an earlier scope completed.
\<close>

theorem samples_empty_iff_never_completed:
  assumes "well_formed evs"
  shows "(fst (GenerateSamples b (run evs (TimedInterval_init nm))) = Inr []
            \<longleftrightarrow> completed evs = 0)
         \<and> ((\<exists>x xs. fst (GenerateSamples b (run evs (TimedInterval_init nm))) = Inr (x # xs))
            \<longleftrightarrow> 0 < completed evs)
         \<and> (phase_run Unmeasured evs = Some Unmeasured \<longrightarrow> completed evs = 0)
         \<and> (phase_run Unmeasured evs = Some Measured \<longrightarrow> 0 < completed evs)"
proof -
  let ?S = "run evs (TimedInterval_init nm)"
  have stop: "stop_time ?S = None \<longleftrightarrow> completed evs = 0"
    using stop_time_run [of evs "TimedInterval_init nm"]
    by (simp add: TimedInterval_init_def)
  have empty: "fst (GenerateSamples b ?S) = Inr [] \<longleftrightarrow> completed evs = 0"
    using stop by (simp add: GenerateSamples_empty_iff)
  have full: "(\<exists>x xs. fst (GenerateSamples b ?S) = Inr (x # xs)) \<longleftrightarrow> 0 < completed evs"
  proof
    assume "\<exists>x xs. fst (GenerateSamples b ?S) = Inr (x # xs)"
    then have "fst (GenerateSamples b ?S) \<noteq> Inr []" by auto
    with empty show "0 < completed evs" by simp
  next
    assume c: "0 < completed evs"
    with stop obtain y where y: "stop_time ?S = Some y" by auto
    from assms c have "start_time ?S \<noteq> None" by (rule well_formed_started)
    then obtain x where x: "start_time ?S = Some x" by auto
    from GenerateSamples_set [OF y x, of b]
    show "\<exists>x xs. fst (GenerateSamples b ?S) = Inr (x # xs)" by simp
  qed
  have phases: "(phase_run Unmeasured evs = Some Unmeasured \<longrightarrow> completed evs = 0)
                \<and> (phase_run Unmeasured evs = Some Measured \<longrightarrow> 0 < completed evs)"
    using phase_run_timestamps [of Unmeasured evs _ 0] by auto
  from empty full phases show ?thesis by simp
qed

theorem samples_empty_iff_never_completed_witness:
  "well_formed [Enter (100::real), Exit_normal 102.5 :: (real, string) event]
   \<and> phase_run Unmeasured [Enter (100::real), Exit_normal 102.5 :: (real, string) event]
       = Some Measured
   \<and> 0 < completed [Enter (100::real), Exit_normal 102.5 :: (real, string) event]
   \<and> (\<exists>x xs. fst (GenerateSamples True
          (run [Enter (100::real), Exit_normal 102.5 :: (real, string) event]
             (TimedInterval_init ''Disk''))) = Inr (x # xs))"
proof -
  have wf: "well_formed [Enter (100::real), Exit_normal 102.5 :: (real, string) event]"
    by (simp add: well_formed_def)
  have ph: "phase_run Unmeasured [Enter (100::real), Exit_normal 102.5 :: (real, string) event]
              = Some Measured"
    by simp
  from ph samples_empty_iff_never_completed [OF wf, of True "''Disk''"]
  have "0 < completed [Enter (100::real), Exit_normal 102.5 :: (real, string) event]
        \<and> (\<exists>x xs. fst (GenerateSamples True
              (run [Enter (100::real), Exit_normal 102.5 :: (real, string) event]
                 (TimedInterval_init ''Disk''))) = Inr (x # xs))"
    by simp
  with wf ph show ?thesis by simp
qed

text \<open>
  C3, as the specification states it, fails: entering Measure again overwrites start\_time
  only. Until the new scope is left normally, stop\_time is still the one of the previous
  bracket, and GenerateSamples mixes the two brackets.
\<close>

theorem reentry_keeps_old_stop_time:
  "stop_time (Measure_enter 200 (Measure_exit 102.5 (Measure_enter (100::real)
      (TimedInterval_init ''Disk'')))) = Some 102.5
   \<and> fst (GenerateSamples True (Measure_enter 200 (Measure_exit 102.5 (Measure_enter (100::real)
      (TimedInterval_init ''Disk'')))))
     = Inr [Sample ''Disk Runtime'' (- 97.5) ''seconds'',
            Sample ''Disk Start Timestamp'' 200 ''seconds'',
            Sample ''Disk Stop Timestamp'' 102.5 ''seconds'']"
  by (simp add: GenerateSamples_def Measure_enter_def Measure_exit_def TimedInterval_init_def)

text \<open>
  C3, amended: for every TimedInterval, whatever happened to it before, once Measure has
  been entered again and its scope has been left normally (the block in between reading
  samples at most), start\_time and stop\_time are the two timestamps of the new bracket,
  and GenerateSamples returns what it returns on a fresh interval of the same name
  measured with this bracket alone.
\<close>

theorem second_Measure_overwrites:
  fixes evs :: "('t::minus, 'e) event list"
  shows "start_time (run (evs @ Enter t1 # map Generate bs @ [Exit_normal t2]) (TimedInterval_init nm))
     = Some t1
   \<and> stop_time (run (evs @ Enter t1 # map Generate bs @ [Exit_normal t2]) (TimedInterval_init nm))
     = Some t2
   \<and> fst (GenerateSamples b
        (run (evs @ Enter t1 # map Generate bs @ [Exit_normal t2]) (TimedInterval_init nm)))
     = fst (GenerateSamples b
         (run [Enter t1, Exit_normal t2 :: ('t, 'e) event] (TimedInterval_init nm)))"
proof -
  let ?S = "run (evs @ Enter t1 # map Generate bs @ [Exit_normal t2]) (TimedInterval_init nm)"
  let ?F = "run [Enter t1, Exit_normal t2 :: ('t, 'e) event] (TimedInterval_init nm)"
  have S: "?S = Measure_exit t2 (Measure_enter t1 (run evs (TimedInterval_init nm)))"
    by (simp add: run_append)
  have start: "start_time ?S = Some t1"
    by (simp only: S) (simp add: Measure_enter_def Measure_exit_def)
  have stop: "stop_time ?S = Some t2"
    by (simp only: S) (simp add: Measure_enter_def Measure_exit_def)
  have nm: "name ?S = nm"
    by (simp add: TimedInterval_init_def)
  have F: "start_time ?F = Some t1" "stop_time ?F = Some t2" "name ?F = nm"
    by (simp_all add: Measure_enter_def Measure_exit_def TimedInterval_init_def)
  have "fst (GenerateSamples b ?S) = fst (GenerateSamples b ?F)"
    using GenerateSamples_set [OF stop start, of b] GenerateSamples_set [OF F(2) F(1), of b]
    by (simp only: nm F(3))
  with start stop show ?thesis by simp
qed

end
